theory Spec2Isabelle
  imports Main
begin

section \<open>JavaScript values\<close>

text \<open>
  The frontend handles decoded JSON through \<^verbatim>\<open>any\<close> casts, object spreads and the
  \<^verbatim>\<open>||\<close> and \<^verbatim>\<open>?.\<close> operators, so the values are modelled untyped. An object is an
  association list of its own properties; a number is an integer (the progress
  percentage, slide numbers and delays of the program are integers).
\<close>

datatype jsval =
    JUndefined
  | JNull
  | JBool bool
  | JNum int
  | JStr string
  | JArr "jsval list"
  | JObj "(string \<times> jsval) list"

type_synonym jsobj = "(string \<times> jsval) list"

text \<open>Truthiness, as \<^verbatim>\<open>||\<close>, \<^verbatim>\<open>!\<close> and \<^verbatim>\<open>if\<close> test it.\<close>

fun truthy :: "jsval \<Rightarrow> bool" where
  "truthy JUndefined = False"
| "truthy JNull = False"
| "truthy (JBool b) = b"
| "truthy (JNum n) = (n \<noteq> 0)"
| "truthy (JStr s) = (s \<noteq> [])"
| "truthy (JArr xs) = True"
| "truthy (JObj kvs) = True"

text \<open>\<^verbatim>\<open>a || b\<close>\<close>

definition js_or :: "jsval \<Rightarrow> jsval \<Rightarrow> jsval" where
  "js_or a b = (if truthy a then a else b)"

text \<open>\<^verbatim>\<open>o.k\<close> on an object: the property's value, \<^verbatim>\<open>undefined\<close> when it has none.\<close>

definition get_prop :: "jsobj \<Rightarrow> string \<Rightarrow> jsval" where
  "get_prop obj k = (case map_of obj k of None \<Rightarrow> JUndefined | Some v \<Rightarrow> v)"

text \<open>
  \<^verbatim>\<open>x?.k\<close> where \<^verbatim>\<open>x\<close> is an object or \<^verbatim>\<open>null\<close>/\<^verbatim>\<open>undefined\<close> (\<open>None\<close>).
\<close>

definition opt_prop :: "jsobj option \<Rightarrow> string \<Rightarrow> jsval" where
  "opt_prop x k = (case x of None \<Rightarrow> JUndefined | Some obj \<Rightarrow> get_prop obj k)"

text \<open>
  \<^verbatim>\<open>v?.k\<close> on an arbitrary decoded JSON value, for the keys the program reads
  (\<^verbatim>\<open>detail\<close>, \<^verbatim>\<open>message\<close>): only an object can carry them.
\<close>

fun val_prop :: "jsval \<Rightarrow> string \<Rightarrow> jsval" where
  "val_prop (JObj kvs) k = get_prop kvs k"
| "val_prop v k = JUndefined"

text \<open>\<^verbatim>\<open>target[k] = v\<close>: replaces the property or adds it.\<close>

fun set_prop :: "string \<Rightarrow> jsval \<Rightarrow> jsobj \<Rightarrow> jsobj" where
  "set_prop k v [] = [(k, v)]"
| "set_prop k v ((k', v') # kvs) =
     (if k' = k then (k, v) # kvs else (k', v') # set_prop k v kvs)"

text \<open>\<^verbatim>\<open>{...target, ...source}\<close>: every own property of the source is set on the target, in order.\<close>

fun spread :: "jsobj \<Rightarrow> jsobj \<Rightarrow> jsobj" where
  "spread target [] = target"
| "spread target ((k, v) # kvs) = spread (set_prop k v target) kvs"

section \<open>Strings\<close>

text \<open>\<^verbatim>\<open>s.startsWith(p)\<close>\<close>

definition startsWith :: "string \<Rightarrow> string \<Rightarrow> bool" where
  "startsWith s p = (take (length p) s = p)"

text \<open>\<^verbatim>\<open>s.indexOf(p)\<close>: the index of the first occurrence, \<open>-1\<close> when there is none.\<close>

fun indexOf :: "string \<Rightarrow> string \<Rightarrow> int" where
  "indexOf [] p = (if p = [] then 0 else - 1)"
| "indexOf (c # cs) p =
     (if startsWith (c # cs) p then 0
      else (let i = indexOf cs p in if i = - 1 then - 1 else i + 1))"

text \<open>\<^verbatim>\<open>s.includes(p)\<close>\<close>

definition str_includes :: "string \<Rightarrow> string \<Rightarrow> bool" where
  "str_includes s p = (indexOf s p \<noteq> - 1)"

text \<open>\<^verbatim>\<open>s.slice(i)\<close> for \<open>0 \<le> i\<close>\<close>

definition slice :: "string \<Rightarrow> int \<Rightarrow> string" where
  "slice s i = drop (nat i) s"

text \<open>\<^verbatim>\<open>s.toLowerCase()\<close> on ASCII text.\<close>

definition lower_char :: "char \<Rightarrow> char" where
  "lower_char c =
     (case map_of (zip ''ABCDEFGHIJKLMNOPQRSTUVWXYZ'' ''abcdefghijklmnopqrstuvwxyz'') c of
        None \<Rightarrow> c
      | Some l \<Rightarrow> l)"

definition toLowerCase :: "string \<Rightarrow> string" where
  "toLowerCase s = map lower_char s"

text \<open>
  Vocabulary for stating where a pattern occurs in a string: at position \<open>i\<close>, and
  first at position \<open>i\<close>.
\<close>

definition occurs_at :: "string \<Rightarrow> string \<Rightarrow> nat \<Rightarrow> bool" where
  "occurs_at s p i = (take (length p) (drop i s) = p)"

definition first_occurrence :: "string \<Rightarrow> string \<Rightarrow> nat \<Rightarrow> bool" where
  "first_occurrence s p i = (occurs_at s p i \<and> list_all (\<lambda>j. \<not> occurs_at s p j) [0..<i])"

definition occurs :: "string \<Rightarrow> string \<Rightarrow> bool" where
  "occurs s p = list_ex (occurs_at s p) [0..<Suc (length s)]"

section \<open>The status types of the client\<close>

text \<open>
  The interfaces \<^verbatim>\<open>SlideProgress\<close> and \<^verbatim>\<open>JobStatus\<close> of \<^verbatim>\<open>lib/api.ts\<close>, as data: each
  field with its name, whether it is optional (\<^verbatim>\<open>?\<close>) and its type.
\<close>

definition JobState :: "string list" where
  "JobState = [''pending'', ''processing'', ''completed'', ''failed'', ''cancelled'']"

definition SlideState :: "string list" where
  "SlideState = [''pending'', ''processing'', ''completed'', ''failed'']"

datatype ftype =
    TString
  | TNumber
  | TLiteral "string list"
  | TNullable ftype
  | TSlideProgressArray

type_synonym interface = "(string \<times> bool \<times> ftype) list"

definition SlideProgress :: interface where
  "SlideProgress =
     [(''slide_number'', False, TNumber),
      (''narration'', False, TLiteral SlideState),
      (''mcq'', False, TLiteral SlideState),
      (''video'', False, TLiteral SlideState),
      (''error'', True, TNullable TString)]"

definition JobStatus :: interface where
  "JobStatus =
     [(''job_id'', False, TString),
      (''status'', False, TLiteral JobState),
      (''progress'', False, TNumber),
      (''current_slide'', True, TNullable TNumber),
      (''total_slides'', True, TNullable TNumber),
      (''current_step'', True, TNullable TString),
      (''slides_progress'', True, TSlideProgressArray),
      (''error'', True, TNullable TString),
      (''created_at'', True, TString),
      (''updated_at'', True, TString),
      (''completed_at'', True, TNullable TString)]"

text \<open>A value of a type that is not an array of objects.\<close>

fun has_plain_type :: "ftype \<Rightarrow> jsval \<Rightarrow> bool" where
  "has_plain_type TString v = (case v of JStr s \<Rightarrow> True | _ \<Rightarrow> False)"
| "has_plain_type TNumber v = (case v of JNum n \<Rightarrow> True | _ \<Rightarrow> False)"
| "has_plain_type (TLiteral names) v = (case v of JStr s \<Rightarrow> s \<in> set names | _ \<Rightarrow> False)"
| "has_plain_type (TNullable t) v = (v = JNull \<or> has_plain_type t v)"
| "has_plain_type TSlideProgressArray v = False"

text \<open>
  An object of an interface: every required field is there, and every field that is
  there has its type. Properties the interface does not name are allowed, as
  TypeScript allows them on a decoded value.
\<close>

definition is_SlideProgress :: "jsval \<Rightarrow> bool" where
  "is_SlideProgress v =
     (case v of
        JObj obj \<Rightarrow>
          list_all (\<lambda>(name, optional, t).
            case map_of obj name of None \<Rightarrow> optional | Some x \<Rightarrow> has_plain_type t x) SlideProgress
      | _ \<Rightarrow> False)"

definition has_type :: "ftype \<Rightarrow> jsval \<Rightarrow> bool" where
  "has_type t v =
     (case t of
        TSlideProgressArray \<Rightarrow> (case v of JArr xs \<Rightarrow> list_all is_SlideProgress xs | _ \<Rightarrow> False)
      | _ \<Rightarrow> has_plain_type t v)"

definition is_JobStatus :: "jsobj \<Rightarrow> bool" where
  "is_JobStatus obj =
     list_all (\<lambda>(name, optional, t).
       case map_of obj name of None \<Rightarrow> optional | Some x \<Rightarrow> has_type t x) JobStatus"

text \<open>The status response that \<^verbatim>\<open>docs/api.md\<close> documents.\<close>

definition documented_status :: jsobj where
  "documented_status =
     [(''job_id'', JStr ''uuid''),
      (''status'', JStr ''processing''),
      (''progress'', JNum 45),
      (''current_slide'', JNum 3),
      (''total_slides'', JNum 10),
      (''current_step'', JStr ''Generating narrations''),
      (''slides_progress'',
         JArr [JObj [(''slide_number'', JNum 1),
                     (''narration'', JStr ''completed''),
                     (''mcq'', JStr ''completed''),
                     (''video'', JStr ''completed'')]])]"

section \<open>The polling hook\<close>

text \<open>
  \<^verbatim>\<open>refetchInterval\<close> of \<^verbatim>\<open>useJobStatus\<close>: from the data of the last successful poll
  (\<^verbatim>\<open>undefined\<close> before the first, \<open>None\<close>) to \<^verbatim>\<open>false\<close> (\<open>None\<close>: polling stops) or a
  number of milliseconds.
\<close>

definition refetchInterval :: "jsobj option \<Rightarrow> nat option" where
  "refetchInterval data =
     (let status = opt_prop data ''status'' in
      if status = JStr ''Completed'' \<or> status = JStr ''Failed'' then None
      else Some 2000)"

text \<open>
  The page calls \<^verbatim>\<open>useJobStatus(jobId)\<close> beside \<^verbatim>\<open>useJobWebSocket(jobId, wsRetry)\<close>: the
  interval at which a subscriber polls, with the poll query's data and the push hook's
  status at hand. The query is given nothing of the push hook.
\<close>

definition pollingInterval :: "jsobj option \<Rightarrow> jsobj option \<Rightarrow> nat option" where
  "pollingInterval data wsStatus = refetchInterval data"

section \<open>The processing page\<close>

text \<open>
  \<^verbatim>\<open>pollStatus\<close> and \<^verbatim>\<open>wsStatus\<close> are a status object or \<^verbatim>\<open>null\<close> (\<open>None\<close>).
  \<^verbatim>\<open>(x as object) || {}\<close>:
\<close>

definition orEmpty :: "jsobj option \<Rightarrow> jsobj" where
  "orEmpty x = (case x of None \<Rightarrow> [] | Some obj \<Rightarrow> obj)"

text \<open>The merged \<^verbatim>\<open>status\<close> object of the page.\<close>

definition mergeStatus :: "jsobj option \<Rightarrow> jsobj option \<Rightarrow> jsobj" where
  "mergeStatus pollStatus wsStatus =
     (let spreaded = spread (spread [] (orEmpty pollStatus)) (orEmpty wsStatus);
          with_slides = set_prop ''slides_progress''
            (js_or (js_or (opt_prop wsStatus ''slides_progress'')
                          (opt_prop pollStatus ''slides_progress'')) (JArr [])) spreaded;
          with_status = set_prop ''status''
            (js_or (js_or (opt_prop wsStatus ''status'')
                          (opt_prop pollStatus ''status'')) (JStr ''Queued'')) with_slides
      in set_prop ''progress''
            (js_or (js_or (opt_prop wsStatus ''progress'')
                          (opt_prop pollStatus ''progress'')) (JNum 0)) with_status)"

text \<open>\<^verbatim>\<open>status?.progress || 0\<close>, the number the progress bar shows.\<close>

definition shownProgress :: "jsobj option \<Rightarrow> jsobj option \<Rightarrow> jsval" where
  "shownProgress pollStatus wsStatus =
     js_or (get_prop (mergeStatus pollStatus wsStatus) ''progress'') (JNum 0)"

definition isCompleted :: "jsobj \<Rightarrow> bool" where
  "isCompleted status =
     (get_prop status ''status'' = JStr ''Completed'' \<or> get_prop status ''status'' = JStr ''completed'')"

definition isFailed :: "jsobj \<Rightarrow> bool" where
  "isFailed status =
     (get_prop status ''status'' = JStr ''Failed'' \<or> get_prop status ''status'' = JStr ''failed'')"

text \<open>The retry state of the page: three \<^verbatim>\<open>useState\<close> cells, initially \<open>0\<close>, \<^verbatim>\<open>false\<close>, \<open>0\<close>.\<close>

record retry_state =
  wsRetry :: nat
  wsRetrying :: bool
  retryCount :: nat

definition initial_retry_state :: retry_state where
  "initial_retry_state = \<lparr>wsRetry = 0, wsRetrying = False, retryCount = 0\<rparr>"

definition jobNotFoundRetryDelayMs :: nat where
  "jobNotFoundRetryDelayMs = 2000"

definition jobNotFoundMaxRetries :: nat where
  "jobNotFoundMaxRetries = 3"

text \<open>
  The effect on \<^verbatim>\<open>[wsError, wsRetry]\<close>. \<^verbatim>\<open>wsError\<close> is a string or \<^verbatim>\<open>null\<close> (\<open>None\<close>).
  The result is the new state and the delay of the timer the effect set, if it set one.
\<close>

definition wsErrorEffect :: "string option \<Rightarrow> retry_state \<Rightarrow> retry_state \<times> nat option" where
  "wsErrorEffect wsError st =
     (case wsError of
        None \<Rightarrow> (st\<lparr>wsRetrying := False\<rparr>, None)
      | Some err \<Rightarrow>
          if err = [] then (st\<lparr>wsRetrying := False\<rparr>, None)
          else if str_includes (toLowerCase err) ''job not found''
                  \<and> wsRetry st < jobNotFoundMaxRetries
          then (st\<lparr>wsRetrying := True,
                   retryCount := min (retryCount st + 1) jobNotFoundMaxRetries\<rparr>,
                Some jobNotFoundRetryDelayMs)
          else (st\<lparr>wsRetrying := False\<rparr>, None))"

text \<open>The timer's callback, \<^verbatim>\<open>setWsRetry((prev) => prev + 1)\<close>.\<close>

definition timerFired :: "retry_state \<Rightarrow> retry_state" where
  "timerFired st = st\<lparr>wsRetry := wsRetry st + 1\<rparr>"

text \<open>
  What the page shows when its render function returns. \<^verbatim>\<open>error\<close> is the message of
  the poll query's error or \<^verbatim>\<open>null\<close> (\<open>None\<close>). The push hook's \<^verbatim>\<open>wsError\<close> is read by
  the effect only.
\<close>

datatype view =
    Loading
  | ErrorLoadingJob string
  | ProcessingFailed jsval
  | ProcessingComplete
  | Processing jsval

text \<open>\<^verbatim>\<open>error && !wsRetrying\<close>: the message the error card shows, if the card is shown.\<close>

definition shownError :: "string option \<Rightarrow> retry_state \<Rightarrow> string option" where
  "shownError error st =
     (case error of
        None \<Rightarrow> None
      | Some message \<Rightarrow> if message \<noteq> [] \<and> \<not> wsRetrying st then Some message else None)"

text \<open>The early return of line 54, \<^verbatim>\<open>isLoading && !pollStatus && !wsStatus\<close>.\<close>

definition returnsEarly :: "bool \<Rightarrow> jsobj option \<Rightarrow> jsobj option \<Rightarrow> bool" where
  "returnsEarly isLoading pollStatus wsStatus =
     (isLoading \<and> pollStatus = None \<and> wsStatus = None)"

text \<open>The JSX the function returns, in the order of its \<^verbatim>\<open>if\<close> statements.\<close>

definition pageView ::
  "bool \<Rightarrow> string option \<Rightarrow> jsobj option \<Rightarrow> jsobj option \<Rightarrow> retry_state \<Rightarrow> view" where
  "pageView isLoading error pollStatus wsStatus st =
     (let status = mergeStatus pollStatus wsStatus in
      if returnsEarly isLoading pollStatus wsStatus then Loading
      else
        (case shownError error st of
           Some message \<Rightarrow> ErrorLoadingJob message
         | None \<Rightarrow>
             if isFailed status \<and> \<not> wsRetrying st
               then ProcessingFailed (js_or (get_prop status ''error'') (JStr ''An error occurred''))
             else if isCompleted status then ProcessingComplete
             else Processing (js_or (get_prop status ''progress'') (JNum 0))))"

text \<open>
  The hooks a render calls. The effect on \<^verbatim>\<open>[wsError, wsRetry]\<close> (line 74) is written
  after the early return (line 54): a render that returns early calls the hooks up to
  there, any other render calls that effect too.
\<close>

datatype hooks = UpToEarlyReturn | WithRetryEffect

definition hooksCalled :: "bool \<Rightarrow> jsobj option \<Rightarrow> jsobj option \<Rightarrow> hooks" where
  "hooksCalled isLoading pollStatus wsStatus =
     (if returnsEarly isLoading pollStatus wsStatus then UpToEarlyReturn else WithRetryEffect)"

text \<open>
  A render. The first render of a mounted page may call any hooks (\<open>previous = None\<close>).
  A later render must call the hooks of the render before it: React throws
  \<^verbatim>\<open>Rendered more hooks than during the previous render\<close> when it calls more, and
  \<^verbatim>\<open>Rendered fewer hooks than expected\<close> when it calls fewer.
\<close>

datatype outcome = Shows view | Throws

definition render ::
  "hooks option \<Rightarrow> bool \<Rightarrow> string option \<Rightarrow> jsobj option \<Rightarrow> jsobj option \<Rightarrow> retry_state
   \<Rightarrow> outcome" where
  "render previous isLoading error pollStatus wsStatus st =
     (case previous of
        None \<Rightarrow> Shows (pageView isLoading error pollStatus wsStatus st)
      | Some called \<Rightarrow>
          if called = hooksCalled isLoading pollStatus wsStatus
          then Shows (pageView isLoading error pollStatus wsStatus st)
          else Throws)"

text \<open>
  What the two hooks of the page return at a render: \<^verbatim>\<open>useJobStatus\<close> gives
  \<^verbatim>\<open>isLoading\<close>, \<^verbatim>\<open>error\<close> and \<^verbatim>\<open>pollStatus\<close>, \<^verbatim>\<open>useJobWebSocket\<close> gives \<^verbatim>\<open>wsStatus\<close>
  and \<^verbatim>\<open>wsError\<close>.
\<close>

record frame =
  f_isLoading :: bool
  f_error :: "string option"
  f_pollStatus :: "jsobj option"
  f_wsStatus :: "jsobj option"
  f_wsError :: "string option"

text \<open>
  The mounted page between two renders: its retry state, what the hooks returned at
  the last render, the hooks that render called, the dependencies the effect last ran
  with (\<open>None\<close>: it has not run), the delay of the pending timer if one is pending, the
  delays of the timers that have fired, and whether a render has thrown.
\<close>

record page =
  retry :: retry_state
  current :: frame
  previous :: "hooks option"
  effectDeps :: "(string option \<times> nat) option"
  timer :: "nat option"
  waited :: "nat list"
  thrown :: bool

text \<open>
  After a render that called the effect: it runs when its dependencies
  \<^verbatim>\<open>[wsError, wsRetry]\<close> differ from those of its last run. Its clean-up clears the
  pending timer, and its body sets the state and perhaps a new timer.
\<close>

definition runEffect :: "page \<Rightarrow> page" where
  "runEffect p =
     (let deps = (f_wsError (current p), wsRetry (retry p)) in
      if effectDeps p = Some deps then p
      else
        (case wsErrorEffect (f_wsError (current p)) (retry p) of
           (st', t) \<Rightarrow> p\<lparr>retry := st', timer := t, effectDeps := Some deps\<rparr>))"

text \<open>
  A render of the page and what follows it. When the render throws, the page is
  unmounted and its timer cleared. Otherwise the hooks it called are remembered, and
  the effect is considered only when the render called it.
\<close>

definition renderPage :: "page \<Rightarrow> page" where
  "renderPage p =
     (let f = current p in
      case render (previous p) (f_isLoading f) (f_error f) (f_pollStatus f) (f_wsStatus f)
             (retry p) of
        Throws \<Rightarrow> p\<lparr>timer := None, thrown := True\<rparr>
      | Shows v \<Rightarrow>
          (case hooksCalled (f_isLoading f) (f_pollStatus f) (f_wsStatus f) of
             UpToEarlyReturn \<Rightarrow> p\<lparr>previous := Some UpToEarlyReturn\<rparr>
           | WithRetryEffect \<Rightarrow> runEffect (p\<lparr>previous := Some WithRetryEffect\<rparr>)))"

text \<open>The first render of the page, with what the hooks return at mount.\<close>

definition mount :: "frame \<Rightarrow> page" where
  "mount f =
     renderPage \<lparr>retry = initial_retry_state, current = f, previous = None, effectDeps = None,
                 timer = None, waited = [], thrown = False\<rparr>"

text \<open>
  What makes the page render again: a hook returns something new, or the pending timer
  fires and its callback sets \<^verbatim>\<open>wsRetry\<close>. A page that has thrown is gone.
\<close>

datatype event = HooksReturn frame | TimerFires

definition pageStep :: "event \<Rightarrow> page \<Rightarrow> page" where
  "pageStep ev p =
     (if thrown p then p
      else
        (case ev of
           HooksReturn f \<Rightarrow> renderPage (p\<lparr>current := f\<rparr>)
         | TimerFires \<Rightarrow>
             (case timer p of
                None \<Rightarrow> p
              | Some delay \<Rightarrow>
                  renderPage (p\<lparr>retry := timerFired (retry p), timer := None,
                                waited := waited p @ [delay]\<rparr>))))"

fun pageRun :: "event list \<Rightarrow> page \<Rightarrow> page" where
  "pageRun [] p = p"
| "pageRun (ev # evs) p = pageRun evs (pageStep ev p)"

text \<open>What the page shows after its last render.\<close>

definition pageShows :: "page \<Rightarrow> outcome" where
  "pageShows p =
     (if thrown p then Throws
      else Shows (pageView (f_isLoading (current p)) (f_error (current p))
                    (f_pollStatus (current p)) (f_wsStatus (current p)) (retry p)))"

text \<open>What holds of a page between renders, however it was driven.\<close>

definition retries_bounded :: "page \<Rightarrow> bool" where
  "retries_bounded p =
     (length (waited p) = wsRetry (retry p)
      \<and> wsRetry (retry p) \<le> 3
      \<and> list_all (\<lambda>d. d = 2000) (waited p)
      \<and> (timer p = None \<or> timer p = Some 2000 \<and> wsRetry (retry p) < 3))"

text \<open>A page whose first render returned early, between renders.\<close>

definition mounted_cold :: "page \<Rightarrow> bool" where
  "mounted_cold p =
     (previous p = Some UpToEarlyReturn \<and> timer p = None \<and> waited p = []
      \<and> retry p = initial_retry_state \<and> effectDeps p = None)"

text \<open>
  A cold mount whose job the push channel does not find: at the first render the poll
  is loading and nothing has arrived; then the push hook reports \<^verbatim>\<open>Job not found\<close>;
  then the poll fails with the same message and is no longer loading.
\<close>

definition cold_frame :: frame where
  "cold_frame =
     \<lparr>f_isLoading = True, f_error = None, f_pollStatus = None, f_wsStatus = None,
      f_wsError = None\<rparr>"

definition cold_not_found_events :: "event list" where
  "cold_not_found_events =
     [HooksReturn (cold_frame\<lparr>f_wsError := Some ''Job not found''\<rparr>),
      TimerFires,
      HooksReturn \<lparr>f_isLoading = False, f_error = Some ''Job not found'', f_pollStatus = None,
                   f_wsStatus = None, f_wsError = Some ''Job not found''\<rparr>]"

text \<open>
  Two snapshots of one job: a poll result updated at 10:00:05 and a push snapshot
  updated at 10:00:01.
\<close>

definition poll_at_T2 :: jsobj where
  "poll_at_T2 =
     [(''job_id'', JStr ''j1''), (''status'', JStr ''processing''), (''progress'', JNum 80),
      (''current_step'', JStr ''Rendering''), (''updated_at'', JStr ''2024-01-01T10:00:05'')]"

definition push_at_T1 :: jsobj where
  "push_at_T1 =
     [(''job_id'', JStr ''j1''), (''status'', JStr ''processing''), (''progress'', JNum 40),
      (''current_step'', JStr ''Generating narrations''),
      (''updated_at'', JStr ''2024-01-01T10:00:01'')]"

text \<open>
  Vocabulary for the sequences of progress values: a JavaScript value is at most
  another when both are numbers in that order.
\<close>

fun js_le :: "jsval \<Rightarrow> jsval \<Rightarrow> bool" where
  "js_le (JNum a) (JNum b) = (a \<le> b)"
| "js_le a b = False"

definition nondecreasing :: "jsval list \<Rightarrow> bool" where
  "nondecreasing vs = sorted_wrt js_le vs"

text \<open>
  Vocabulary for time stamps: the wire carries them as strings, and ISO-8601 stamps of
  one format are ordered as text, character by character.
\<close>

fun timestamp_less :: "string \<Rightarrow> string \<Rightarrow> bool" where
  "timestamp_less [] [] = False"
| "timestamp_less [] (b # bs) = True"
| "timestamp_less (a # as) [] = False"
| "timestamp_less (a # as) (b # bs) =
     ((of_char a :: nat) < of_char b \<or> (a = b \<and> timestamp_less as bs))"

text \<open>A status value that names a member of \<^verbatim>\<open>JobState\<close>, in either capitalisation.\<close>

definition names_JobState :: "jsval \<Rightarrow> bool" where
  "names_JobState v = (case v of JStr s \<Rightarrow> toLowerCase s \<in> set JobState | _ \<Rightarrow> False)"

text \<open>
  A mount past the loading state (the poll query already holds an error from an earlier
  visit), with the push hook reporting \<^verbatim>\<open>Job not found\<close> and every timer firing.
\<close>

definition warm_frame :: frame where
  "warm_frame =
     \<lparr>f_isLoading = False, f_error = Some ''Job not found'', f_pollStatus = None,
      f_wsStatus = None, f_wsError = None\<rparr>"

definition warm_not_found_events :: "event list" where
  "warm_not_found_events =
     [HooksReturn (warm_frame\<lparr>f_wsError := Some ''Job not found''\<rparr>),
      TimerFires, TimerFires, TimerFires]"

section \<open>The slide viewer\<close>

text \<open>
  \<^verbatim>\<open>SlideViewer\<close> keeps \<^verbatim>\<open>currentSlide\<close>, initially \<open>0\<close>. Its two handlers are
  \<^verbatim>\<open>setCurrentSlide((prev) => Math.max(0, prev - 1))\<close> and
  \<^verbatim>\<open>setCurrentSlide((prev) => Math.min(slides.length - 1, prev + 1))\<close>.
\<close>

definition goToPrevious :: "int \<Rightarrow> int" where
  "goToPrevious prev = max 0 (prev - 1)"

definition goToNext :: "'a list \<Rightarrow> int \<Rightarrow> int" where
  "goToNext slides prev = min (int (length slides) - 1) (prev + 1)"

datatype nav = Previous | Next

fun navigate :: "'a list \<Rightarrow> int \<Rightarrow> nav \<Rightarrow> int" where
  "navigate slides cur Previous = goToPrevious cur"
| "navigate slides cur Next = goToNext slides cur"

text \<open>The clicks of a session, applied in order to the state.\<close>

fun navigate_all :: "'a list \<Rightarrow> int \<Rightarrow> nav list \<Rightarrow> int" where
  "navigate_all slides cur [] = cur"
| "navigate_all slides cur (n # ns) = navigate_all slides (navigate slides cur n) ns"

definition initialSlide :: int where
  "initialSlide = 0"

text \<open>\<^verbatim>\<open>slides[currentSlide]\<close>: \<^verbatim>\<open>undefined\<close> (\<open>None\<close>) out of range.\<close>

definition slideAt :: "'a list \<Rightarrow> int \<Rightarrow> 'a option" where
  "slideAt slides i = (if 0 \<le> i \<and> i < int (length slides) then Some (slides ! nat i) else None)"

section \<open>The API client\<close>

text \<open>
  \<^verbatim>\<open>process.env.NEXT_PUBLIC_API_URL\<close> is a string or \<^verbatim>\<open>undefined\<close> (\<open>None\<close>). The
  functions that read it take it as their first argument.
\<close>

type_synonym env = "string option"

definition defaultBaseUrl :: string where
  "defaultBaseUrl = ''http://localhost:8000''"

text \<open>\<^verbatim>\<open>base.replace(/\/$/, '')\<close>: one slash at the very end is removed.\<close>

definition stripTrailingSlash :: "string \<Rightarrow> string" where
  "stripTrailingSlash s = (if s \<noteq> [] \<and> last s = CHR ''/'' then butlast s else s)"

text \<open>\<^verbatim>\<open>process.env.NEXT_PUBLIC_API_URL || defaultBaseUrl\<close>: the empty string is falsy.\<close>

definition getApiBaseUrl :: "env \<Rightarrow> string" where
  "getApiBaseUrl e =
     (let base = (case e of None \<Rightarrow> defaultBaseUrl
                  | Some u \<Rightarrow> if u \<noteq> [] then u else defaultBaseUrl)
      in stripTrailingSlash base)"

definition joinUrl :: "string \<Rightarrow> string \<Rightarrow> string" where
  "joinUrl base path =
     (if path = [] then base
      else if startsWith path ''/'' then base @ path
      else base @ ''/'' @ path)"

text \<open>\<^verbatim>\<open>path.replace(/\\/g, '/')\<close>\<close>

definition backslash :: char where
  "backslash = CHR 0x5C"

definition normalizeSlashes :: "string \<Rightarrow> string" where
  "normalizeSlashes path = map (\<lambda>c. if c = backslash then CHR ''/'' else c) path"

text \<open>The argument is a string, \<^verbatim>\<open>null\<close> or \<^verbatim>\<open>undefined\<close> (\<open>None\<close>).\<close>

definition getFileUrl :: "env \<Rightarrow> string option \<Rightarrow> string" where
  "getFileUrl e path =
     (case path of
        None \<Rightarrow> []
      | Some p \<Rightarrow>
          if p = [] then []
          else if startsWith p ''http://'' \<or> startsWith p ''https://'' then p
          else
            (let normalized = normalizeSlashes p;
                 dataIndex = indexOf normalized ''/data/'';
                 storageIndex = indexOf normalized ''/storage/'';
                 relativePath =
                   (if dataIndex \<noteq> - 1 then slice normalized dataIndex
                    else if storageIndex \<noteq> - 1 then slice normalized storageIndex
                    else if \<not> startsWith normalized ''/'' then ''/'' @ normalized
                    else normalized)
             in joinUrl (getApiBaseUrl e) relativePath))"

text \<open>
  \<^verbatim>\<open>getWebSocketUrl\<close> runs in the same process environment as the other functions of
  the module, and does not read it.
\<close>

definition getWebSocketUrl :: "env \<Rightarrow> string \<Rightarrow> string" where
  "getWebSocketUrl e jobId = ''ws://localhost:8000/ws/jobs/'' @ jobId"

text \<open>
  What the client reads of a \<^verbatim>\<open>Response\<close>: the \<^verbatim>\<open>ok\<close> flag and the outcome of
  \<^verbatim>\<open>response.json()\<close>, \<open>None\<close> when the body is not JSON and the promise rejects.
\<close>

record response =
  ok :: bool
  json :: "jsval option"

text \<open>
  \<^verbatim>\<open>parseError\<close> returns \<^verbatim>\<open>payload.detail\<close> or \<^verbatim>\<open>payload.message\<close> as decoded, or
  the fallback; the \<^verbatim>\<open>catch\<close> turns a failed decoding into the fallback.
\<close>

definition parseError :: "response \<Rightarrow> string \<Rightarrow> jsval" where
  "parseError r fallback =
     (case json r of
        None \<Rightarrow> JStr fallback
      | Some payload \<Rightarrow>
          if truthy (val_prop payload ''detail'') then val_prop payload ''detail''
          else if truthy (val_prop payload ''message'') then val_prop payload ''message''
          else JStr fallback)"

text \<open>
  The ways a request rejects: \<open>Error v\<close> is \<^verbatim>\<open>new Error(v)\<close>, whose message is \<open>v\<close>
  (converted to a string when it is not one); \<open>SyntaxError\<close> is a body of an accepted
  response that does not decode; \<open>NetworkError\<close> is \<^verbatim>\<open>fetch\<close> itself rejecting.
\<close>

datatype error = Error jsval | SyntaxError | NetworkError

text \<open>The transport: \<^verbatim>\<open>fetch(url)\<close> gives a response, or rejects (\<open>None\<close>).\<close>

type_synonym transport = "string \<Rightarrow> response option"

definition jobStatusUrl :: "env \<Rightarrow> string \<Rightarrow> string" where
  "jobStatusUrl e jobId = joinUrl (getApiBaseUrl e) (''/api/v1/jobs/'' @ jobId @ ''/status'')"

definition getJobStatus :: "env \<Rightarrow> transport \<Rightarrow> string \<Rightarrow> error + jsval" where
  "getJobStatus e fetch jobId =
     (case fetch (jobStatusUrl e jobId) of
        None \<Rightarrow> Inl NetworkError
      | Some r \<Rightarrow>
          if \<not> ok r then Inl (Error (parseError r ''Failed to fetch job status''))
          else (case json r of None \<Rightarrow> Inl SyntaxError | Some v \<Rightarrow> Inr v))"

section \<open>Properties of the slide viewer\<close>

lemma navigate_in_bounds:
  "slides \<noteq> [] \<Longrightarrow> 0 \<le> cur \<Longrightarrow> cur \<le> int (length slides) - 1 \<Longrightarrow>
   0 \<le> navigate slides cur n \<and> navigate slides cur n \<le> int (length slides) - 1"
  by (cases n) (auto simp: goToPrevious_def goToNext_def)

lemma navigate_all_in_bounds:
  "slides \<noteq> [] \<Longrightarrow> 0 \<le> cur \<Longrightarrow> cur \<le> int (length slides) - 1 \<Longrightarrow>
   0 \<le> navigate_all slides cur ns \<and> navigate_all slides cur ns \<le> int (length slides) - 1"
proof (induction ns arbitrary: cur)
  case Nil
  then show ?case by simp
next
  case (Cons n ns)
  from navigate_in_bounds [OF Cons.prems] have
    "0 \<le> navigate slides cur n" "navigate slides cur n \<le> int (length slides) - 1"
    by simp_all
  with Cons.IH [OF Cons.prems(1)] show ?case by simp
qed

text \<open>
  C10. For a non-empty slide list and any sequence of previous/next clicks from the
  initial state, the current slide index stays in \<open>[0, length slides - 1]\<close>, previous
  stops at \<open>0\<close>, next stops at the last index, and the lookup \<^verbatim>\<open>slides[currentSlide]\<close>
  finds a slide.
\<close>

theorem slide_index_in_bounds:
  assumes "slides \<noteq> []"
  shows "0 \<le> navigate_all slides initialSlide ns
       \<and> navigate_all slides initialSlide ns \<le> int (length slides) - 1
       \<and> slideAt slides (navigate_all slides initialSlide ns)
           = Some (slides ! nat (navigate_all slides initialSlide ns))
       \<and> goToPrevious 0 = 0
       \<and> goToNext slides (int (length slides) - 1) = int (length slides) - 1"
proof -
  have len: "0 \<le> int (length slides) - 1" using assms by (cases slides) simp_all
  have b: "0 \<le> navigate_all slides initialSlide ns
         \<and> navigate_all slides initialSlide ns \<le> int (length slides) - 1"
    using navigate_all_in_bounds [OF assms, of initialSlide ns] len
    by (simp add: initialSlide_def)
  then have "slideAt slides (navigate_all slides initialSlide ns)
           = Some (slides ! nat (navigate_all slides initialSlide ns))"
    by (simp add: slideAt_def)
  moreover have "goToPrevious 0 = 0" by (simp add: goToPrevious_def)
  moreover have "goToNext slides (int (length slides) - 1) = int (length slides) - 1"
    by (simp add: goToNext_def)
  ultimately show ?thesis using b by simp
qed

theorem slide_index_in_bounds_witness:
  "[''a'', ''b''] \<noteq> ([] :: string list)
   \<and> navigate_all [''a'', ''b''] initialSlide [Next, Next, Next, Previous, Previous, Previous, Next] = 1
   \<and> slideAt [''a'', ''b''] (navigate_all [''a'', ''b''] initialSlide
        [Next, Next, Next, Previous, Previous, Previous, Next]) = Some ''b''"
  using slide_index_in_bounds [of "[''a'', ''b'']" "[Next, Next, Next, Previous, Previous, Previous, Next]"]
  by (simp add: initialSlide_def goToPrevious_def goToNext_def)

section \<open>Properties of the API client\<close>


lemma indexOf_ge: "indexOf s p \<noteq> - 1 \<Longrightarrow> 0 \<le> indexOf s p"
  by (induction s) (auto simp: Let_def split: if_splits)

lemma indexOf_found:
  "indexOf s p \<noteq> - 1 \<Longrightarrow> startsWith (drop (nat (indexOf s p)) s) p"
proof (induction s)
  case Nil
  then show ?case by (simp add: startsWith_def split: if_splits)
next
  case (Cons c cs)
  show ?case
  proof (cases "startsWith (c # cs) p")
    case True
    then show ?thesis by simp
  next
    case False
    with Cons.prems have ne: "indexOf cs p \<noteq> - 1"
      by (auto simp: Let_def split: if_splits)
    with False have eq: "indexOf (c # cs) p = indexOf cs p + 1"
      by (simp add: Let_def)
    from indexOf_ge [OF ne] have "nat (indexOf cs p + 1) = Suc (nat (indexOf cs p))"
      by simp
    with eq Cons.IH [OF ne] show ?thesis by simp
  qed
qed

lemma indexOf_first:
  "indexOf s p \<noteq> - 1 \<Longrightarrow> j < nat (indexOf s p) \<Longrightarrow> \<not> startsWith (drop j s) p"
proof (induction s arbitrary: j)
  case Nil
  then show ?case by (simp split: if_splits)
next
  case (Cons c cs)
  show ?case
  proof (cases "startsWith (c # cs) p")
    case True
    with Cons.prems show ?thesis by simp
  next
    case False
    with Cons.prems have ne: "indexOf cs p \<noteq> - 1"
      by (auto simp: Let_def split: if_splits)
    with False have eq: "indexOf (c # cs) p = indexOf cs p + 1"
      by (simp add: Let_def)
    from indexOf_ge [OF ne] have n: "nat (indexOf cs p + 1) = Suc (nat (indexOf cs p))"
      by simp
    show ?thesis
    proof (cases j)
      case 0
      with False show ?thesis by simp
    next
      case (Suc k)
      with Cons.prems(2) eq n have "k < nat (indexOf cs p)" by simp
      from Cons.IH [OF ne this] Suc show ?thesis by simp
    qed
  qed
qed

lemma indexOf_lower: "- 1 \<le> indexOf s p"
  by (induction s) (auto simp: Let_def)

lemma indexOf_none:
  "indexOf s p = - 1 \<Longrightarrow> \<not> startsWith (drop j s) p"
proof (induction s arbitrary: j)
  case Nil
  then show ?case by (simp add: startsWith_def split: if_splits)
next
  case (Cons c cs)
  from Cons.prems indexOf_lower [of cs p]
  have ns: "\<not> startsWith (c # cs) p" and none: "indexOf cs p = - 1"
    by (auto simp: Let_def split: if_splits)
  show ?case
  proof (cases j)
    case 0
    with ns show ?thesis by simp
  next
    case (Suc k)
    with Cons.IH [OF none, of k] show ?thesis by simp
  qed
qed

lemma indexOf_le_length: "indexOf s p \<le> int (length s)"
  by (induction s) (auto simp: Let_def)

lemma startsWith_occurs_at: "startsWith (drop j s) p = occurs_at s p j"
  by (simp add: startsWith_def occurs_at_def)

lemma indexOf_first_occurrence:
  assumes "first_occurrence s p i"
  shows "indexOf s p = int i"
proof -
  from assms have at: "occurs_at s p i" and before: "\<And>j. j < i \<Longrightarrow> \<not> occurs_at s p j"
    by (simp_all add: first_occurrence_def list_all_iff)
  have ne: "indexOf s p \<noteq> - 1"
    using indexOf_none [of s p i] at by (auto simp: startsWith_occurs_at)
  let ?k = "nat (indexOf s p)"
  have k: "occurs_at s p ?k"
    using indexOf_found [OF ne] by (simp add: startsWith_occurs_at)
  have "\<not> ?k < i" using before k by blast
  moreover have "\<not> i < ?k"
    using indexOf_first [OF ne, of i] at by (auto simp: startsWith_occurs_at)
  ultimately have "?k = i" by simp
  with indexOf_ge [OF ne] show ?thesis by simp
qed

lemma indexOf_not_occurs:
  assumes "\<not> occurs s p"
  shows "indexOf s p = - 1"
proof (rule ccontr)
  assume ne: "indexOf s p \<noteq> - 1"
  from indexOf_found [OF ne] have "occurs_at s p (nat (indexOf s p))"
    by (simp add: startsWith_occurs_at)
  moreover from indexOf_le_length [of s p] have "nat (indexOf s p) < Suc (length s)"
    by simp
  ultimately have "occurs s p"
    unfolding occurs_def list_ex_iff by (intro bexI [of _ "nat (indexOf s p)"]) auto
  with assms show False by simp
qed

lemma joinUrl_absolute: "startsWith path ''/'' \<Longrightarrow> joinUrl base path = base @ path"
  by (auto simp: joinUrl_def startsWith_def)

lemma occurs_at_startsWith_slash:
  "occurs_at s (CHR ''/'' # p) i \<Longrightarrow> startsWith (drop i s) ''/''"
  by (cases "drop i s") (auto simp: occurs_at_def startsWith_def)

text \<open>
  C9. \<^verbatim>\<open>getFileUrl\<close> returns the empty string for \<^verbatim>\<open>null\<close>, \<^verbatim>\<open>undefined\<close> and the empty
  path, and returns a path that starts with \<^verbatim>\<open>http://\<close> or \<^verbatim>\<open>https://\<close> unchanged. For
  any other path it replaces every backslash by a slash and prepends the API base URL
  to: the part from the first \<^verbatim>\<open>/data/\<close> on; failing that, the part from the first
  \<^verbatim>\<open>/storage/\<close> on; failing both, the whole path, with a \<^verbatim>\<open>/\<close> put before it when it
  does not start with one.
\<close>

theorem getFileUrl_cases:
  "getFileUrl e None = []
   \<and> getFileUrl e (Some []) = []
   \<and> (p \<noteq> [] \<and> (startsWith p ''http://'' \<or> startsWith p ''https://'')
        \<longrightarrow> getFileUrl e (Some p) = p)
   \<and> (p \<noteq> [] \<and> \<not> startsWith p ''http://'' \<and> \<not> startsWith p ''https://'' \<longrightarrow>
        (first_occurrence (normalizeSlashes p) ''/data/'' i
           \<longrightarrow> getFileUrl e (Some p) = getApiBaseUrl e @ drop i (normalizeSlashes p))
      \<and> (\<not> occurs (normalizeSlashes p) ''/data/''
           \<and> first_occurrence (normalizeSlashes p) ''/storage/'' i
           \<longrightarrow> getFileUrl e (Some p) = getApiBaseUrl e @ drop i (normalizeSlashes p))
      \<and> (\<not> occurs (normalizeSlashes p) ''/data/'' \<and> \<not> occurs (normalizeSlashes p) ''/storage/''
           \<and> \<not> startsWith (normalizeSlashes p) ''/''
           \<longrightarrow> getFileUrl e (Some p) = getApiBaseUrl e @ ''/'' @ normalizeSlashes p)
      \<and> (\<not> occurs (normalizeSlashes p) ''/data/'' \<and> \<not> occurs (normalizeSlashes p) ''/storage/''
           \<and> startsWith (normalizeSlashes p) ''/''
           \<longrightarrow> getFileUrl e (Some p) = getApiBaseUrl e @ normalizeSlashes p))
   \<and> normalizeSlashes p = map (\<lambda>c. if c = CHR 0x5C then CHR ''/'' else c) p"
proof -
  let ?n = "normalizeSlashes p"
  let ?b = "getApiBaseUrl e"
  have a: "getFileUrl e None = []" "getFileUrl e (Some []) = []"
    by (simp_all add: getFileUrl_def)
  have b: "p \<noteq> [] \<and> (startsWith p ''http://'' \<or> startsWith p ''https://'')
        \<longrightarrow> getFileUrl e (Some p) = p"
    by (simp add: getFileUrl_def)
  have c: "getFileUrl e (Some p) = ?b @ drop i ?n"
    if h: "p \<noteq> []" "\<not> startsWith p ''http://''" "\<not> startsWith p ''https://''"
      and f: "first_occurrence ?n ''/data/'' i"
  proof -
    from indexOf_first_occurrence [OF f] have ix: "indexOf ?n ''/data/'' = int i" .
    from f have "startsWith (drop i ?n) ''/''"
      using occurs_at_startsWith_slash [of ?n "''data/''" i] by (simp add: first_occurrence_def)
    then have "joinUrl ?b (drop i ?n) = ?b @ drop i ?n" by (rule joinUrl_absolute)
    with h ix show ?thesis by (simp add: getFileUrl_def slice_def Let_def)
  qed
  have d: "getFileUrl e (Some p) = ?b @ drop i ?n"
    if h: "p \<noteq> []" "\<not> startsWith p ''http://''" "\<not> startsWith p ''https://''"
      and nd: "\<not> occurs ?n ''/data/''"
      and f: "first_occurrence ?n ''/storage/'' i"
  proof -
    from indexOf_first_occurrence [OF f] have ix: "indexOf ?n ''/storage/'' = int i" .
    from indexOf_not_occurs [OF nd] have dx: "indexOf ?n ''/data/'' = - 1" .
    from f have "startsWith (drop i ?n) ''/''"
      using occurs_at_startsWith_slash [of ?n "''storage/''" i] by (simp add: first_occurrence_def)
    then have "joinUrl ?b (drop i ?n) = ?b @ drop i ?n" by (rule joinUrl_absolute)
    with h ix dx show ?thesis by (simp add: getFileUrl_def slice_def Let_def)
  qed
  have ne: "?n \<noteq> []" if "p \<noteq> []" using that by (simp add: normalizeSlashes_def)
  have e1: "getFileUrl e (Some p) = ?b @ ''/'' @ ?n"
    if h: "p \<noteq> []" "\<not> startsWith p ''http://''" "\<not> startsWith p ''https://''"
      and nd: "\<not> occurs ?n ''/data/''" and ns: "\<not> occurs ?n ''/storage/''"
      and rel: "\<not> startsWith ?n ''/''"
  proof -
    from indexOf_not_occurs [OF nd] have dx: "indexOf ?n ''/data/'' = - 1" .
    from indexOf_not_occurs [OF ns] have sx: "indexOf ?n ''/storage/'' = - 1" .
    have "joinUrl ?b (''/'' @ ?n) = ?b @ ''/'' @ ?n"
      by (rule joinUrl_absolute) (simp add: startsWith_def)
    with h dx sx rel show ?thesis by (simp add: getFileUrl_def Let_def)
  qed
  have e2: "getFileUrl e (Some p) = ?b @ ?n"
    if h: "p \<noteq> []" "\<not> startsWith p ''http://''" "\<not> startsWith p ''https://''"
      and nd: "\<not> occurs ?n ''/data/''" and ns: "\<not> occurs ?n ''/storage/''"
      and ab: "startsWith ?n ''/''"
  proof -
    from indexOf_not_occurs [OF nd] have dx: "indexOf ?n ''/data/'' = - 1" .
    from indexOf_not_occurs [OF ns] have sx: "indexOf ?n ''/storage/'' = - 1" .
    from ab have "joinUrl ?b ?n = ?b @ ?n" by (rule joinUrl_absolute)
    with h dx sx ab show ?thesis by (simp add: getFileUrl_def Let_def)
  qed
  have f: "normalizeSlashes p = map (\<lambda>c. if c = CHR 0x5C then CHR ''/'' else c) p"
    by (simp add: normalizeSlashes_def backslash_def)
  from a b c d e1 e2 f show ?thesis by blast
qed

theorem getFileUrl_cases_witness:
  "first_occurrence
     (normalizeSlashes (''C:'' @ [CHR 0x5C] @ ''app'' @ [CHR 0x5C] @ ''data'' @ [CHR 0x5C] @ ''s1.png''))
     ''/data/'' 6
   \<and> getFileUrl (Some ''https://api.example.com/'')
     (Some (''C:'' @ [CHR 0x5C] @ ''app'' @ [CHR 0x5C] @ ''data'' @ [CHR 0x5C] @ ''s1.png''))
   = ''https://api.example.com/data/s1.png''"
proof -
  let ?p = "''C:'' @ [CHR 0x5C] @ ''app'' @ [CHR 0x5C] @ ''data'' @ [CHR 0x5C] @ ''s1.png''"
  have n: "normalizeSlashes ?p = ''C:/app/data/s1.png''"
    by (simp add: normalizeSlashes_def backslash_def)
  have f: "first_occurrence (normalizeSlashes ?p) ''/data/'' 6"
    unfolding n by (simp add: first_occurrence_def occurs_at_def upt_rec)
  have h: "?p \<noteq> [] \<and> \<not> startsWith ?p ''http://'' \<and> \<not> startsWith ?p ''https://''"
    by (simp add: startsWith_def)
  have b: "getApiBaseUrl (Some ''https://api.example.com/'') = ''https://api.example.com''"
    by (simp add: getApiBaseUrl_def stripTrailingSlash_def)
  from getFileUrl_cases [of "Some ''https://api.example.com/''" ?p 6] h f
  have "getFileUrl (Some ''https://api.example.com/'') (Some ?p)
      = getApiBaseUrl (Some ''https://api.example.com/'') @ drop 6 (normalizeSlashes ?p)"
    by blast
  with f show ?thesis unfolding n b by simp
qed


text \<open>
  C8. The push-channel URL is the fixed string \<^verbatim>\<open>ws://localhost:8000/ws/jobs/{job_id}\<close>
  whatever \<^verbatim>\<open>NEXT_PUBLIC_API_URL\<close> holds, while the poll-channel URL is built on the
  configured base: unset, it is \<^verbatim>\<open>http://localhost:8000\<close>; set to a non-empty string,
  it is that string less one trailing slash. With the variable set to another host the
  two channels address different hosts.
\<close>

theorem websocket_url_ignores_base_url:
  "getWebSocketUrl e jobId = ''ws://localhost:8000/ws/jobs/'' @ jobId
   \<and> getWebSocketUrl e jobId = getWebSocketUrl e' jobId
   \<and> getApiBaseUrl None = ''http://localhost:8000''
   \<and> getApiBaseUrl (Some (c # cs)) = stripTrailingSlash (c # cs)
   \<and> jobStatusUrl e jobId = getApiBaseUrl e @ ''/api/v1/jobs/'' @ jobId @ ''/status''
   \<and> jobStatusUrl (Some ''https://api.example.com/'') jobId
       = ''https://api.example.com/api/v1/jobs/'' @ jobId @ ''/status''
   \<and> getWebSocketUrl (Some ''https://api.example.com/'') jobId
       = ''ws://localhost:8000/ws/jobs/'' @ jobId"
  by (simp add: getWebSocketUrl_def getApiBaseUrl_def defaultBaseUrl_def
      stripTrailingSlash_def jobStatusUrl_def joinUrl_def startsWith_def)

text \<open>
  C7 (as the spec states it). \<^verbatim>\<open>getJobStatus\<close> would return the decoded status whenever
  the transport reports success, and on failure would take the message from the
  payload's \<^verbatim>\<open>detail\<close> whenever the payload has one. A response that reports success
  with a body that is not JSON makes it reject instead; and a \<^verbatim>\<open>detail\<close> that is there
  but empty is passed over for the \<^verbatim>\<open>message\<close>.
\<close>

theorem getJobStatus_rejects_undecodable_success:
  "getJobStatus None (\<lambda>u. Some \<lparr>ok = True, json = None\<rparr>) ''j1'' = Inl SyntaxError
   \<and> val_prop (JObj [(''detail'', JStr []), (''message'', JStr ''Gone'')]) ''detail'' = JStr []
   \<and> getJobStatus None
        (\<lambda>u. Some \<lparr>ok = False,
                     json = Some (JObj [(''detail'', JStr []), (''message'', JStr ''Gone'')])\<rparr>)
        ''j1''
       = Inl (Error (JStr ''Gone''))"
  by (simp add: getJobStatus_def parseError_def get_prop_def)

text \<open>
  C7 (amended). \<^verbatim>\<open>getJobStatus\<close> returns a value exactly when the transport's response
  reports success and its body decodes, and the value is the decoded body; a response
  that reports success with a body that does not decode makes it reject. On a response
  that reports failure it never returns: it rejects with an error made from the
  payload's \<^verbatim>\<open>detail\<close> when that is there and truthy, else from its \<^verbatim>\<open>message\<close> when
  that is there and truthy, else from the fixed text \<^verbatim>\<open>Failed to fetch job status\<close>,
  which is also the message when the failed response's body does not decode.
\<close>

theorem getJobStatus_ok_or_error:
  assumes "fetch (jobStatusUrl e jobId) = Some r"
  shows "(getJobStatus e fetch jobId = Inr v \<longleftrightarrow> ok r \<and> json r = Some v)
       \<and> (ok r \<and> json r = None \<longrightarrow> getJobStatus e fetch jobId = Inl SyntaxError)
       \<and> (\<not> ok r \<longrightarrow> (\<exists>m. getJobStatus e fetch jobId = Inl (Error m)))
       \<and> (\<not> ok r \<and> json r = Some payload \<and> truthy (val_prop payload ''detail'')
            \<longrightarrow> getJobStatus e fetch jobId = Inl (Error (val_prop payload ''detail'')))
       \<and> (\<not> ok r \<and> json r = Some payload \<and> \<not> truthy (val_prop payload ''detail'')
            \<and> truthy (val_prop payload ''message'')
            \<longrightarrow> getJobStatus e fetch jobId = Inl (Error (val_prop payload ''message'')))
       \<and> (\<not> ok r \<and> json r = Some payload \<and> \<not> truthy (val_prop payload ''detail'')
            \<and> \<not> truthy (val_prop payload ''message'')
            \<longrightarrow> getJobStatus e fetch jobId = Inl (Error (JStr ''Failed to fetch job status'')))
       \<and> (\<not> ok r \<and> json r = None
            \<longrightarrow> getJobStatus e fetch jobId = Inl (Error (JStr ''Failed to fetch job status'')))"
  using assms by (auto simp: getJobStatus_def parseError_def split: option.splits)

theorem getJobStatus_ok_or_error_witness:
  "(\<lambda>u. if u = ''http://localhost:8000/api/v1/jobs/j1/status''
         then Some \<lparr>ok = False, json = Some (JObj [(''detail'', JStr ''Job not found'')])\<rparr>
         else None) (jobStatusUrl None ''j1'')
     = Some \<lparr>ok = False, json = Some (JObj [(''detail'', JStr ''Job not found'')])\<rparr>
   \<and> getJobStatus None
        (\<lambda>u. if u = ''http://localhost:8000/api/v1/jobs/j1/status''
              then Some \<lparr>ok = False, json = Some (JObj [(''detail'', JStr ''Job not found'')])\<rparr>
              else None) ''j1''
     = Inl (Error (JStr ''Job not found''))"
proof -
  let ?r = "\<lparr>ok = False, json = Some (JObj [(''detail'', JStr ''Job not found'')])\<rparr>"
  let ?fetch = "\<lambda>u. if u = ''http://localhost:8000/api/v1/jobs/j1/status'' then Some ?r else None"
  have u: "jobStatusUrl None ''j1'' = ''http://localhost:8000/api/v1/jobs/j1/status''"
    by (simp add: jobStatusUrl_def getApiBaseUrl_def defaultBaseUrl_def stripTrailingSlash_def
        joinUrl_def startsWith_def)
  have h: "?fetch (jobStatusUrl None ''j1'') = Some ?r" unfolding u by simp
  have d: "val_prop (JObj [(''detail'', JStr ''Job not found'')]) ''detail'' = JStr ''Job not found''"
    by (simp add: get_prop_def)
  from getJobStatus_ok_or_error [where fetch = ?fetch and e = None and jobId = "''j1''"
      and r = ?r and payload = "JObj [(''detail'', JStr ''Job not found'')]"] h d
  have "getJobStatus None ?fetch ''j1'' = Inl (Error (JStr ''Job not found''))" by simp
  with h show ?thesis by simp
qed

section \<open>Properties of the merged status\<close>



lemma map_of_set_prop:
  "map_of (set_prop k v obj) k' = (if k' = k then Some v else map_of obj k')"
  by (induction obj) auto

lemma get_prop_set_prop:
  "get_prop (set_prop k v obj) k' = (if k' = k then v else get_prop obj k')"
  by (simp add: get_prop_def map_of_set_prop)

lemma map_of_spread:
  "distinct (map fst src) \<Longrightarrow>
   map_of (spread tgt src) k = (case map_of src k of Some v \<Rightarrow> Some v | None \<Rightarrow> map_of tgt k)"
proof (induction src arbitrary: tgt)
  case Nil
  then show ?case by simp
next
  case (Cons kv kvs)
  obtain k0 v0 where kv: "kv = (k0, v0)" by (cases kv)
  from Cons.prems kv have d: "distinct (map fst kvs)" and fresh: "map_of kvs k0 = None"
    by (auto simp: map_of_eq_None_iff)
  show ?case
    using Cons.IH [OF d, of "set_prop k0 v0 tgt"] fresh kv
    by (auto simp: map_of_set_prop split: option.splits)
qed

lemma get_prop_spread:
  "distinct (map fst p) \<Longrightarrow> distinct (map fst w) \<Longrightarrow>
   get_prop (spread (spread [] p) w) k = (case map_of w k of Some v \<Rightarrow> v | None \<Rightarrow> get_prop p k)"
  by (simp add: get_prop_def map_of_spread split: option.splits)

lemma get_prop_spread_empty:
  "distinct (map fst p) \<Longrightarrow> get_prop (spread (spread [] p) []) k = get_prop p k"
  by (simp add: get_prop_def map_of_spread split: option.splits)

lemma merged_plain:
  "k \<notin> {''slides_progress'', ''status'', ''progress''} \<Longrightarrow>
   get_prop (mergeStatus pollStatus wsStatus) k
     = get_prop (spread (spread [] (orEmpty pollStatus)) (orEmpty wsStatus)) k"
  by (simp add: mergeStatus_def Let_def get_prop_set_prop)

lemma merged_special:
  "k \<in> {''slides_progress'', ''status'', ''progress''} \<Longrightarrow>
   get_prop (mergeStatus pollStatus wsStatus) k
     = js_or (js_or (opt_prop wsStatus k) (opt_prop pollStatus k))
         (if k = ''slides_progress'' then JArr [] else if k = ''status'' then JStr ''Queued''
          else JNum 0)"
  by (auto simp add: mergeStatus_def Let_def get_prop_set_prop)


lemma distinct_example_snapshots:
  "distinct (map fst poll_at_T2)" "distinct (map fst push_at_T1)"
  by (simp_all add: poll_at_T2_def push_at_T1_def)

text \<open>
  C1 (as the spec states it). The merge would be last-writer-wins by time stamp: with
  a poll result newer than the push snapshot, the merged view would show the poll
  result. It does not: the older push snapshot's progress, step and time stamp replace
  the newer poll result's.
\<close>

theorem stale_push_overrides_newer_poll:
  "timestamp_less (''2024-01-01T10:00:01'') (''2024-01-01T10:00:05'')
   \<and> get_prop push_at_T1 ''updated_at'' = JStr ''2024-01-01T10:00:01''
   \<and> get_prop poll_at_T2 ''updated_at'' = JStr ''2024-01-01T10:00:05''
   \<and> get_prop poll_at_T2 ''progress'' = JNum 80
   \<and> get_prop (mergeStatus (Some poll_at_T2) (Some push_at_T1)) ''progress'' = JNum 40
   \<and> get_prop (mergeStatus (Some poll_at_T2) (Some push_at_T1)) ''current_step''
       = JStr ''Generating narrations''
   \<and> get_prop (mergeStatus (Some poll_at_T2) (Some push_at_T1)) ''updated_at''
       = JStr ''2024-01-01T10:00:01''"
  by (simp add: mergeStatus_def Let_def orEmpty_def opt_prop_def get_prop_def js_or_def
      poll_at_T2_def push_at_T1_def)

text \<open>
  C1 (amended). The merge is push-first and reads no time stamp: whatever the update
  time stamps of the two snapshots are, a property the push snapshot carries replaces
  the poll result's, and the poll result supplies the properties the push snapshot
  lacks; for \<^verbatim>\<open>status\<close>, \<^verbatim>\<open>progress\<close> and \<^verbatim>\<open>slides_progress\<close> the push value is taken
  when it is truthy, else the poll value when that is truthy. With no push snapshot
  the merged view shows the poll result's values.
\<close>

theorem merge_prefers_push:
  assumes "distinct (map fst p)" and "distinct (map fst w)"
  shows "(k \<notin> {''slides_progress'', ''status'', ''progress''} \<longrightarrow>
            get_prop (mergeStatus (Some p) (Some w)) k
              = (case map_of w k of Some v \<Rightarrow> v | None \<Rightarrow> get_prop p k))
       \<and> (k \<in> {''slides_progress'', ''status'', ''progress''} \<and> truthy (get_prop w k) \<longrightarrow>
            get_prop (mergeStatus (Some p) (Some w)) k = get_prop w k)
       \<and> (k \<in> {''slides_progress'', ''status'', ''progress''} \<and> \<not> truthy (get_prop w k)
            \<and> truthy (get_prop p k) \<longrightarrow>
            get_prop (mergeStatus (Some p) (Some w)) k = get_prop p k)
       \<and> (k \<notin> {''slides_progress'', ''status'', ''progress''} \<or> truthy (get_prop p k) \<longrightarrow>
            get_prop (mergeStatus (Some p) None) k = get_prop p k)"
proof -
  have plain: "get_prop (mergeStatus (Some p) (Some w)) k
      = (case map_of w k of Some v \<Rightarrow> v | None \<Rightarrow> get_prop p k)"
    if "k \<notin> {''slides_progress'', ''status'', ''progress''}"
    using merged_plain [OF that, of "Some p" "Some w"] get_prop_spread [OF assms, of k]
    by (simp add: orEmpty_def)
  have special: "get_prop (mergeStatus (Some p) (Some w)) k
      = js_or (js_or (get_prop w k) (get_prop p k))
         (if k = ''slides_progress'' then JArr [] else if k = ''status'' then JStr ''Queued''
          else JNum 0)"
    if "k \<in> {''slides_progress'', ''status'', ''progress''}"
    using merged_special [OF that, of "Some p" "Some w"] by (simp add: opt_prop_def)
  have alone_plain: "get_prop (mergeStatus (Some p) None) k = get_prop p k"
    if "k \<notin> {''slides_progress'', ''status'', ''progress''}"
    using merged_plain [OF that, of "Some p" None] get_prop_spread_empty [OF assms(1), of k]
    by (simp add: orEmpty_def)
  have alone_special: "get_prop (mergeStatus (Some p) None) k = get_prop p k"
    if "k \<in> {''slides_progress'', ''status'', ''progress''}" and "truthy (get_prop p k)"
    using merged_special [OF that(1), of "Some p" None] that(2)
    by (simp add: opt_prop_def js_or_def)
  from plain special alone_plain alone_special show ?thesis
    by (auto simp: js_or_def)
qed

theorem merge_prefers_push_witness:
  "distinct (map fst poll_at_T2) \<and> distinct (map fst push_at_T1)
   \<and> get_prop (mergeStatus (Some poll_at_T2) (Some push_at_T1)) ''updated_at''
       = JStr ''2024-01-01T10:00:01''
   \<and> get_prop (mergeStatus (Some poll_at_T2) None) ''updated_at''
       = JStr ''2024-01-01T10:00:05''"
  using merge_prefers_push [OF distinct_example_snapshots, of "''updated_at''"]
    distinct_example_snapshots
  by (simp add: poll_at_T2_def push_at_T1_def get_prop_def)

text \<open>
  C3 (as the spec states it). The progress values the merged view presents would never
  decrease. They do: with a poll result at 80 shown first, the arrival of a push
  snapshot at 40 brings the shown value down to 40, though neither channel's own values
  decreased.
\<close>

theorem shown_progress_decreases:
  "map (\<lambda>(pollStatus, wsStatus). shownProgress pollStatus wsStatus)
     [(Some poll_at_T2, None), (Some poll_at_T2, Some push_at_T1)] = [JNum 80, JNum 40]
   \<and> \<not> nondecreasing (map (\<lambda>(pollStatus, wsStatus). shownProgress pollStatus wsStatus)
         [(Some poll_at_T2, None), (Some poll_at_T2, Some push_at_T1)])"
  by (simp add: shownProgress_def mergeStatus_def Let_def orEmpty_def opt_prop_def get_prop_def
      js_or_def poll_at_T2_def push_at_T1_def nondecreasing_def)

lemma nondecreasing_JNum: "nondecreasing (map JNum ns) = sorted ns"
  by (induction ns) (auto simp: nondecreasing_def)

lemma shownProgress_eq:
  "shownProgress pollStatus wsStatus =
     (if truthy (opt_prop wsStatus ''progress'') then opt_prop wsStatus ''progress''
      else if truthy (opt_prop pollStatus ''progress'') then opt_prop pollStatus ''progress''
      else JNum 0)"
  using merged_special [of "''progress''" pollStatus wsStatus]
  by (simp add: shownProgress_def js_or_def)

text \<open>
  C3 (amended). Each render shows the push snapshot's progress when that is truthy (a
  non-zero number), otherwise the poll result's when that is truthy, otherwise 0, and
  compares it with no earlier value. So the values shown never decrease along renders
  where the push snapshot always has a non-zero progress and the push values never
  decrease; and along renders where the push snapshot is absent or has no non-zero
  progress and the poll values (0 where the poll result has none) never decrease.
\<close>

theorem shown_progress_follows_channel:
  "shownProgress pollStatus wsStatus =
     (if truthy (opt_prop wsStatus ''progress'') then opt_prop wsStatus ''progress''
      else if truthy (opt_prop pollStatus ''progress'') then opt_prop pollStatus ''progress''
      else JNum 0)
   \<and> (list_all2 (\<lambda>(pollStatus, wsStatus) n. opt_prop wsStatus ''progress'' = JNum n \<and> n \<noteq> 0)
       renders ns \<and> sorted ns
     \<longrightarrow> map (\<lambda>(pollStatus, wsStatus). shownProgress pollStatus wsStatus) renders = map JNum ns
       \<and> nondecreasing (map (\<lambda>(pollStatus, wsStatus). shownProgress pollStatus wsStatus) renders))
   \<and> (list_all2 (\<lambda>(pollStatus, wsStatus) n. \<not> truthy (opt_prop wsStatus ''progress'')
          \<and> (opt_prop pollStatus ''progress'' = JNum n
              \<or> \<not> truthy (opt_prop pollStatus ''progress'') \<and> n = 0)) renders ns \<and> sorted ns
     \<longrightarrow> map (\<lambda>(pollStatus, wsStatus). shownProgress pollStatus wsStatus) renders = map JNum ns
       \<and> nondecreasing (map (\<lambda>(pollStatus, wsStatus). shownProgress pollStatus wsStatus) renders))"
proof -
  let ?shown = "\<lambda>(pollStatus, wsStatus). shownProgress pollStatus wsStatus"
  have push: "map ?shown renders = map JNum ns"
    if "list_all2 (\<lambda>(pollStatus, wsStatus) n. opt_prop wsStatus ''progress'' = JNum n \<and> n \<noteq> 0)
          renders ns"
    using that by (induction rule: list_all2_induct) (auto simp: shownProgress_eq)
  have poll: "map ?shown renders = map JNum ns"
    if "list_all2 (\<lambda>(pollStatus, wsStatus) n. \<not> truthy (opt_prop wsStatus ''progress'')
          \<and> (opt_prop pollStatus ''progress'' = JNum n
              \<or> \<not> truthy (opt_prop pollStatus ''progress'') \<and> n = 0)) renders ns"
    using that by (induction rule: list_all2_induct) (auto simp: shownProgress_eq)
  from push poll shownProgress_eq [of pollStatus wsStatus] show ?thesis
    by (simp add: nondecreasing_JNum)
qed

theorem shown_progress_follows_channel_witness:
  "list_all2 (\<lambda>(pollStatus, wsStatus) n. \<not> truthy (opt_prop wsStatus ''progress'')
          \<and> (opt_prop pollStatus ''progress'' = JNum n
              \<or> \<not> truthy (opt_prop pollStatus ''progress'') \<and> n = 0))
     [(None, None), (Some poll_at_T2, Some [(''progress'', JNum 0)])] [0, 80]
   \<and> sorted [0, 80 :: int]
   \<and> map (\<lambda>(pollStatus, wsStatus). shownProgress pollStatus wsStatus)
       [(None, None), (Some poll_at_T2, Some [(''progress'', JNum 0)])]
     = [JNum 0, JNum 80]
   \<and> shownProgress (Some poll_at_T2) (Some push_at_T1) = JNum 40"
proof -
  have h: "list_all2 (\<lambda>(pollStatus, wsStatus) n. \<not> truthy (opt_prop wsStatus ''progress'')
          \<and> (opt_prop pollStatus ''progress'' = JNum n
              \<or> \<not> truthy (opt_prop pollStatus ''progress'') \<and> n = 0))
     [(None, None), (Some poll_at_T2, Some [(''progress'', JNum 0)])] [0, 80]"
    by (simp add: opt_prop_def get_prop_def poll_at_T2_def)
  have s: "sorted [0, 80 :: int]" by simp
  note t = shown_progress_follows_channel
    [of "Some poll_at_T2" "Some push_at_T1"
        "[(None, None), (Some poll_at_T2, Some [(''progress'', JNum 0)])]" "[0, 80]"]
  from t [THEN conjunct2, THEN conjunct2] h s
  have m: "map (\<lambda>(pollStatus, wsStatus). shownProgress pollStatus wsStatus)
       [(None, None), (Some poll_at_T2, Some [(''progress'', JNum 0)])]
     = [JNum 0, JNum 80]"
    by simp
  have "opt_prop (Some push_at_T1) ''progress'' = JNum 40"
    by (simp add: opt_prop_def get_prop_def push_at_T1_def)
  with t [THEN conjunct1]
  have e: "shownProgress (Some poll_at_T2) (Some push_at_T1) = JNum 40" by simp
  show ?thesis by (intro conjI) (rule h, rule s, rule m, rule e)
qed

section \<open>Properties of the status enumeration\<close>


lemma Queued_not_JobState: "\<not> names_JobState (JStr ''Queued'')"
  by (simp add: names_JobState_def toLowerCase_def lower_char_def JobState_def)

lemma names_JobState_truthy: "names_JobState v \<Longrightarrow> truthy v"
  by (cases v) (auto simp: names_JobState_def toLowerCase_def JobState_def)

text \<open>
  C6 (as the spec states it). Every status value the client shows, the default before
  data arrives included, would be one of the five job states. The default is not:
  with no snapshot from either channel the merged status is \<^verbatim>\<open>Queued\<close>, which is
  none of the five in either capitalisation.
\<close>

theorem default_status_outside_enumeration:
  "get_prop (mergeStatus None None) ''status'' = JStr ''Queued''
   \<and> ''Queued'' \<notin> set JobState
   \<and> toLowerCase ''Queued'' \<notin> set JobState
   \<and> \<not> names_JobState (get_prop (mergeStatus None None) ''status'')"
  by (simp add: mergeStatus_def Let_def orEmpty_def opt_prop_def get_prop_def js_or_def
      names_JobState_def toLowerCase_def lower_char_def JobState_def)

text \<open>
  C6 (amended). When the status of every snapshot a channel delivers is one of the five
  job states, the status of the merged view is one of the five or the placeholder
  \<^verbatim>\<open>Queued\<close>, which lies outside the enumeration; it is the placeholder exactly when
  neither channel has delivered a snapshot.
\<close>

theorem merged_status_enumeration_or_placeholder:
  assumes "\<forall>obj. pollStatus = Some obj \<longrightarrow> names_JobState (get_prop obj ''status'')"
      and "\<forall>obj. wsStatus = Some obj \<longrightarrow> names_JobState (get_prop obj ''status'')"
  shows "(names_JobState (get_prop (mergeStatus pollStatus wsStatus) ''status'')
           \<or> get_prop (mergeStatus pollStatus wsStatus) ''status'' = JStr ''Queued'')
       \<and> (get_prop (mergeStatus pollStatus wsStatus) ''status'' = JStr ''Queued''
           \<longleftrightarrow> pollStatus = None \<and> wsStatus = None)
       \<and> \<not> names_JobState (JStr ''Queued'')"
proof -
  have m: "get_prop (mergeStatus pollStatus wsStatus) ''status''
      = js_or (js_or (opt_prop wsStatus ''status'') (opt_prop pollStatus ''status''))
          (JStr ''Queued'')"
    using merged_special [of "''status''" pollStatus wsStatus] by simp
  show ?thesis
  proof (cases wsStatus)
    case (Some w)
    with assms(2) have n: "names_JobState (get_prop w ''status'')" by simp
    from names_JobState_truthy [OF n] Some m
    have "get_prop (mergeStatus pollStatus wsStatus) ''status'' = get_prop w ''status''"
      by (simp add: js_or_def opt_prop_def)
    with n Some Queued_not_JobState show ?thesis by auto
  next
    case None
    show ?thesis
    proof (cases pollStatus)
      case (Some p)
      with assms(1) have n: "names_JobState (get_prop p ''status'')" by simp
      from names_JobState_truthy [OF n] Some None m
      have "get_prop (mergeStatus pollStatus wsStatus) ''status'' = get_prop p ''status''"
        by (simp add: js_or_def opt_prop_def)
      with n Some Queued_not_JobState show ?thesis by auto
    next
      case None
      with \<open>wsStatus = None\<close> m Queued_not_JobState show ?thesis
        by (simp add: js_or_def opt_prop_def)
    qed
  qed
qed

theorem merged_status_enumeration_or_placeholder_witness:
  "names_JobState (get_prop poll_at_T2 ''status'')
   \<and> names_JobState (get_prop (mergeStatus (Some poll_at_T2) None) ''status'')
   \<and> get_prop (mergeStatus (Some poll_at_T2) None) ''status'' \<noteq> JStr ''Queued''"
proof -
  have n: "names_JobState (get_prop poll_at_T2 ''status'')"
    by (simp add: names_JobState_def toLowerCase_def lower_char_def JobState_def
        poll_at_T2_def get_prop_def)
  then have h1: "\<forall>obj. Some poll_at_T2 = Some obj \<longrightarrow> names_JobState (get_prop obj ''status'')"
    by simp
  have h2: "\<forall>obj. (None :: jsobj option) = Some obj \<longrightarrow> names_JobState (get_prop obj ''status'')"
    by simp
  from merged_status_enumeration_or_placeholder [OF h1 h2] n show ?thesis by auto
qed

section \<open>Properties of the retry effect and of the page's renders\<close>


lemma wsErrorEffect_timer:
  "wsErrorEffect e st = (st', Some d) \<Longrightarrow>
   d = 2000 \<and> wsRetry st < 3 \<and> wsRetry st' = wsRetry st"
  by (auto simp: wsErrorEffect_def jobNotFoundRetryDelayMs_def jobNotFoundMaxRetries_def
      split: option.splits if_splits)

lemma wsErrorEffect_wsRetry:
  "wsErrorEffect e st = (st', t) \<Longrightarrow> wsRetry st' = wsRetry st"
  by (auto simp: wsErrorEffect_def split: option.splits if_splits)

lemma runEffect_bounded:
  assumes "retries_bounded p"
  shows "retries_bounded (runEffect p)"
proof (cases "effectDeps p = Some (f_wsError (current p), wsRetry (retry p))")
  case True
  with assms show ?thesis by (simp add: runEffect_def)
next
  case False
  obtain st' t where eff: "wsErrorEffect (f_wsError (current p)) (retry p) = (st', t)"
    by (cases "wsErrorEffect (f_wsError (current p)) (retry p)")
  with False have r: "runEffect p
      = p\<lparr>retry := st', timer := t,
           effectDeps := Some (f_wsError (current p), wsRetry (retry p))\<rparr>"
    by (simp add: runEffect_def Let_def)
  from wsErrorEffect_wsRetry [OF eff] have same: "wsRetry st' = wsRetry (retry p)" .
  show ?thesis
  proof (cases t)
    case None
    with assms r same show ?thesis by (simp add: retries_bounded_def)
  next
    case (Some d)
    with wsErrorEffect_timer eff have "d = 2000" "wsRetry (retry p) < 3" by blast+
    with assms r same Some show ?thesis by (simp add: retries_bounded_def)
  qed
qed

lemma renderPage_bounded:
  assumes "retries_bounded p"
  shows "retries_bounded (renderPage p)"
proof -
  have a: "retries_bounded (p\<lparr>timer := None, thrown := True\<rparr>)"
    using assms by (simp add: retries_bounded_def)
  have b: "retries_bounded (p\<lparr>previous := h\<rparr>)" for h
    using assms by (simp add: retries_bounded_def)
  from a b runEffect_bounded [OF b] show ?thesis
    by (simp add: renderPage_def Let_def split: outcome.splits hooks.splits)
qed

lemma pageStep_bounded:
  assumes "retries_bounded p"
  shows "retries_bounded (pageStep ev p)"
proof (cases "thrown p")
  case True
  with assms show ?thesis by (simp add: pageStep_def)
next
  case False
  show ?thesis
  proof (cases ev)
    case (HooksReturn f)
    have "retries_bounded (p\<lparr>current := f\<rparr>)"
      using assms by (simp add: retries_bounded_def)
    from renderPage_bounded [OF this] False HooksReturn show ?thesis
      by (simp add: pageStep_def)
  next
    case TimerFires
    show ?thesis
    proof (cases "timer p")
      case None
      with assms False TimerFires show ?thesis by (simp add: pageStep_def)
    next
      case (Some d)
      with assms have "retries_bounded
          (p\<lparr>retry := timerFired (retry p), timer := None, waited := waited p @ [d]\<rparr>)"
        by (simp add: retries_bounded_def timerFired_def)
      from renderPage_bounded [OF this] False TimerFires Some show ?thesis
        by (simp add: pageStep_def)
    qed
  qed
qed

lemma pageRun_bounded:
  "retries_bounded p \<Longrightarrow> retries_bounded (pageRun evs p)"
  by (induction evs arbitrary: p) (simp_all add: pageStep_bounded)

lemma mount_bounded: "retries_bounded (mount f)"
  unfolding mount_def
  by (rule renderPage_bounded) (simp add: retries_bounded_def initial_retry_state_def)

lemma every_run_retries_at_most_three_times:
  "length (waited (pageRun evs (mount f))) \<le> 3
   \<and> list_all (\<lambda>d. d = 2000) (waited (pageRun evs (mount f)))"
  using pageRun_bounded [OF mount_bounded, of evs f] by (simp add: retries_bounded_def)

lemma mount_cold:
  "returnsEarly (f_isLoading f) (f_pollStatus f) (f_wsStatus f) \<Longrightarrow>
   mounted_cold (mount f) \<and> \<not> thrown (mount f)"
  by (simp add: mount_def renderPage_def render_def hooksCalled_def mounted_cold_def Let_def)

lemma pageStep_cold:
  assumes "mounted_cold p"
  shows "mounted_cold (pageStep ev p)"
proof (cases ev)
  case (HooksReturn f)
  with assms show ?thesis
    by (simp add: pageStep_def renderPage_def render_def hooksCalled_def mounted_cold_def Let_def)
next
  case TimerFires
  with assms show ?thesis by (simp add: pageStep_def mounted_cold_def)
qed

lemma pageStep_cold_throws:
  assumes "mounted_cold p" and "\<not> returnsEarly (f_isLoading f) (f_pollStatus f) (f_wsStatus f)"
  shows "thrown (pageStep (HooksReturn f) p)"
  using assms
  by (simp add: pageStep_def renderPage_def render_def hooksCalled_def mounted_cold_def Let_def)

lemma pageStep_thrown: "thrown p \<Longrightarrow> pageStep ev p = p"
  by (simp add: pageStep_def)

lemma pageRun_thrown: "thrown p \<Longrightarrow> pageRun evs p = p"
  by (induction evs) (simp_all add: pageStep_thrown)

lemma pageRun_cold:
  "mounted_cold p \<Longrightarrow> mounted_cold (pageRun evs p)"
  by (induction evs arbitrary: p) (simp_all add: pageStep_cold)

lemma pageRun_cold_throws:
  assumes "mounted_cold p" and "HooksReturn f \<in> set evs"
    and "\<not> returnsEarly (f_isLoading f) (f_pollStatus f) (f_wsStatus f)"
  shows "thrown (pageRun evs p)"
  using assms(1,2)
proof (induction evs arbitrary: p)
  case Nil
  then show ?case by simp
next
  case (Cons ev evs)
  show ?case
  proof (cases "ev = HooksReturn f")
    case True
    from pageStep_cold_throws [OF Cons.prems(1) assms(3)] True
    have "thrown (pageStep ev p)" by simp
    from pageRun_thrown [OF this] this show ?thesis by simp
  next
    case False
    with Cons.prems(2) have "HooksReturn f \<in> set evs" by simp
    from Cons.IH [OF pageStep_cold [OF Cons.prems(1)] this] show ?thesis by simp
  qed
qed

lemma cold_mount_never_retries:
  assumes "returnsEarly (f_isLoading f) (f_pollStatus f) (f_wsStatus f)"
  shows "waited (pageRun evs (mount f)) = []
       \<and> retry (pageRun evs (mount f)) = initial_retry_state
       \<and> (HooksReturn g \<in> set evs
            \<and> \<not> returnsEarly (f_isLoading g) (f_pollStatus g) (f_wsStatus g)
          \<longrightarrow> pageShows (pageRun evs (mount f)) = Throws)"
proof -
  from mount_cold [OF assms] have c: "mounted_cold (mount f)" by simp
  from pageRun_cold [OF c, of evs] have "waited (pageRun evs (mount f)) = []"
    "retry (pageRun evs (mount f)) = initial_retry_state"
    by (simp_all add: mounted_cold_def)
  moreover have "pageShows (pageRun evs (mount f)) = Throws"
    if "HooksReturn g \<in> set evs"
      "\<not> returnsEarly (f_isLoading g) (f_pollStatus g) (f_wsStatus g)"
    using pageRun_cold_throws [OF c that] by (simp add: pageShows_def)
  ultimately show ?thesis by blast
qed

lemma reports_job_not_found:
  "str_includes (toLowerCase ''Job not found'') ''job not found''"
proof -
  have "toLowerCase ''Job not found'' = ''job not found''"
    by (simp add: toLowerCase_def lower_char_def)
  then show ?thesis by (simp add: str_includes_def startsWith_def)
qed

lemma retry_effect_on_not_found:
  "wsRetry st < 3 \<Longrightarrow>
   wsErrorEffect (Some ''Job not found'') st
     = (st\<lparr>wsRetrying := True, retryCount := min (retryCount st + 1) 3\<rparr>, Some 2000)"
  using reports_job_not_found
  by (simp add: wsErrorEffect_def jobNotFoundMaxRetries_def jobNotFoundRetryDelayMs_def)

lemma retry_effect_exhausted:
  "3 \<le> wsRetry st \<Longrightarrow> wsErrorEffect e st = (st\<lparr>wsRetrying := False\<rparr>, None)"
  by (auto simp: wsErrorEffect_def jobNotFoundMaxRetries_def split: option.splits)

lemma warm_mount_retries_then_shows_poll_error:
  "pageRun warm_not_found_events (mount warm_frame)
     = \<lparr>retry = \<lparr>wsRetry = 3, wsRetrying = False, retryCount = 3\<rparr>,
        current = warm_frame\<lparr>f_wsError := Some ''Job not found''\<rparr>,
        previous = Some WithRetryEffect,
        effectDeps = Some (Some ''Job not found'', 3),
        timer = None, waited = [2000, 2000, 2000], thrown = False\<rparr>
   \<and> pageShows (pageRun warm_not_found_events (mount warm_frame))
       = Shows (ErrorLoadingJob ''Job not found'')"
proof -
  have m: "mount warm_frame
     = \<lparr>retry = \<lparr>wsRetry = 0, wsRetrying = False, retryCount = 0\<rparr>,
        current = warm_frame, previous = Some WithRetryEffect,
        effectDeps = Some (None, 0), timer = None, waited = [], thrown = False\<rparr>"
    by (simp add: mount_def renderPage_def render_def hooksCalled_def returnsEarly_def
        runEffect_def wsErrorEffect_def warm_frame_def initial_retry_state_def Let_def)
  have r: "pageRun warm_not_found_events (mount warm_frame)
     = \<lparr>retry = \<lparr>wsRetry = 3, wsRetrying = False, retryCount = 3\<rparr>,
        current = warm_frame\<lparr>f_wsError := Some ''Job not found''\<rparr>,
        previous = Some WithRetryEffect,
        effectDeps = Some (Some ''Job not found'', 3),
        timer = None, waited = [2000, 2000, 2000], thrown = False\<rparr>"
    unfolding m
    by (simp add: warm_not_found_events_def pageStep_def renderPage_def render_def
        hooksCalled_def returnsEarly_def runEffect_def retry_effect_on_not_found
        retry_effect_exhausted timerFired_def warm_frame_def Let_def)
  have s: "pageShows \<lparr>retry = \<lparr>wsRetry = 3, wsRetrying = False, retryCount = 3\<rparr>,
        current = warm_frame\<lparr>f_wsError := Some ''Job not found''\<rparr>,
        previous = Some WithRetryEffect,
        effectDeps = Some (Some ''Job not found'', 3),
        timer = None, waited = [2000, 2000, 2000], thrown = False\<rparr>
       = Shows (ErrorLoadingJob ''Job not found'')"
    by (simp add: pageShows_def pageView_def returnsEarly_def shownError_def warm_frame_def
        Let_def)
  from r s show ?thesis by simp
qed

text \<open>
  C4. The claim holds of what the page sets out to do and fails on the page as it is
  written. On a cold mount the first render returns early in the loading state without
  calling the retry effect; the push hook's \<^verbatim>\<open>Job not found\<close> then schedules no retry;
  and the first render that leaves the loading state calls one more hook than the
  render before it, so React throws: no retry was made, no timer waited, the attempt
  counter is still 0, and no error card is shown.
\<close>

theorem cold_mount_throws_without_retry:
  "pageShows (mount cold_frame) = Shows Loading
   \<and> previous (mount cold_frame) = Some UpToEarlyReturn
   \<and> waited (pageRun cold_not_found_events (mount cold_frame)) = []
   \<and> retry (pageRun cold_not_found_events (mount cold_frame))
       = \<lparr>wsRetry = 0, wsRetrying = False, retryCount = 0\<rparr>
   \<and> thrown (pageRun cold_not_found_events (mount cold_frame))
   \<and> pageShows (pageRun cold_not_found_events (mount cold_frame)) = Throws"
  by (simp add: cold_not_found_events_def cold_frame_def mount_def pageStep_def renderPage_def
      render_def hooksCalled_def returnsEarly_def pageShows_def pageView_def
      initial_retry_state_def Let_def)

section \<open>Properties of the status types\<close>


lemma JobStatus_field:
  "is_JobStatus obj \<Longrightarrow> (name, optional, t) \<in> set JobStatus \<Longrightarrow>
   (case map_of obj name of None \<Rightarrow> optional | Some x \<Rightarrow> has_type t x)"
  by (auto simp: is_JobStatus_def list_all_iff)




lemma required_literal:
  "(case map_of obj name of None \<Rightarrow> False | Some x \<Rightarrow> has_type (TLiteral names) x) \<Longrightarrow>
   \<exists>s \<in> set names. get_prop obj name = JStr s"
  by (auto simp: get_prop_def has_type_def split: option.splits jsval.splits)









lemma getJobStatus_unchecked:
  "fetch (jobStatusUrl e jobId) = Some r \<Longrightarrow> ok r \<Longrightarrow> json r = Some v \<Longrightarrow>
   getJobStatus e fetch jobId = Inr v"
  by (simp add: getJobStatus_def)




section \<open>Properties of polling\<close>

lemma conforming_status_keeps_polling:
  assumes "is_JobStatus obj"
  shows "refetchInterval (Some obj) = Some 2000"
proof -
  have "(''status'', False, TLiteral JobState) \<in> set JobStatus" by (simp add: JobStatus_def)
  from required_literal [OF JobStatus_field [OF assms this]]
  obtain s where "s \<in> set JobState" "get_prop obj ''status'' = JStr s" by blast
  then show ?thesis
    by (auto simp: refetchInterval_def opt_prop_def JobState_def)
qed

text \<open>
  C2 (as the spec states it). Once a terminal status is seen on either channel,
  Cancelled included, polling would stop. It does not for Cancelled: the refetch
  interval stays 2000 ms, in either capitalisation of the status. Nor does it when the
  terminal status came by the push channel only: with a push snapshot that makes the
  merged view completed, the interval computed from the poll result is still 2000 ms.
\<close>

theorem polling_continues_after_cancelled:
  "refetchInterval (Some [(''job_id'', JStr ''j1''), (''status'', JStr ''Cancelled''),
                          (''progress'', JNum 40)]) = Some 2000
   \<and> refetchInterval (Some [(''job_id'', JStr ''j1''), (''status'', JStr ''cancelled''),
                            (''progress'', JNum 40)]) = Some 2000
   \<and> isCompleted (mergeStatus (Some poll_at_T2)
         (Some [(''job_id'', JStr ''j1''), (''status'', JStr ''Completed''),
                (''progress'', JNum 100)]))
   \<and> pollingInterval (Some poll_at_T2)
         (Some [(''job_id'', JStr ''j1''), (''status'', JStr ''Completed''),
                (''progress'', JNum 100)]) = Some 2000"
  by (simp add: pollingInterval_def refetchInterval_def opt_prop_def get_prop_def isCompleted_def
      mergeStatus_def Let_def orEmpty_def js_or_def poll_at_T2_def)

text \<open>
  C2 (amended). The interval at which a subscriber polls is decided by the poll
  channel's own last result, whatever the push channel has delivered. It is \<^verbatim>\<open>false\<close>
  (polling stops) exactly when that result's status is the string \<^verbatim>\<open>Completed\<close> or
  the string \<^verbatim>\<open>Failed\<close>, and 2000 ms in every other case: a Cancelled status, a status
  that is not terminal, no result yet, and every result that conforms to the client's
  \<^verbatim>\<open>JobStatus\<close> type, whose status names are written in lowercase.
\<close>

theorem polling_stops_on_completed_or_failed:
  "(refetchInterval data = None
      \<longleftrightarrow> opt_prop data ''status'' = JStr ''Completed'' \<or> opt_prop data ''status'' = JStr ''Failed'')
   \<and> (refetchInterval data = Some 2000
      \<longleftrightarrow> opt_prop data ''status'' \<noteq> JStr ''Completed'' \<and> opt_prop data ''status'' \<noteq> JStr ''Failed'')
   \<and> (opt_prop data ''status'' = JStr ''Cancelled'' \<longrightarrow> refetchInterval data = Some 2000)
   \<and> refetchInterval None = Some 2000
   \<and> pollingInterval data wsStatus = refetchInterval data
   \<and> (is_JobStatus obj \<longrightarrow> pollingInterval (Some obj) wsStatus = Some 2000)"
proof -
  have a: "refetchInterval data = None
      \<longleftrightarrow> opt_prop data ''status'' = JStr ''Completed'' \<or> opt_prop data ''status'' = JStr ''Failed''"
    by (simp add: refetchInterval_def Let_def)
  have b: "refetchInterval data = Some 2000
      \<longleftrightarrow> opt_prop data ''status'' \<noteq> JStr ''Completed'' \<and> opt_prop data ''status'' \<noteq> JStr ''Failed''"
    by (simp add: refetchInterval_def Let_def)
  have c: "opt_prop data ''status'' = JStr ''Cancelled'' \<longrightarrow> refetchInterval data = Some 2000"
    by (simp add: refetchInterval_def Let_def)
  have d: "refetchInterval None = Some 2000"
    by (simp add: refetchInterval_def opt_prop_def)
  have e: "pollingInterval data wsStatus = refetchInterval data"
    by (simp add: pollingInterval_def)
  have f: "is_JobStatus obj \<longrightarrow> pollingInterval (Some obj) wsStatus = Some 2000"
    by (simp add: pollingInterval_def conforming_status_keeps_polling)
  show ?thesis by (intro conjI) (rule a, rule b, rule c, rule d, rule e, rule f)
qed


theorem polling_stops_on_completed_or_failed_witness:
  "is_JobStatus documented_status
   \<and> pollingInterval (Some documented_status) (Some push_at_T1) = Some 2000
   \<and> opt_prop (Some [(''job_id'', JStr ''j1''), (''status'', JStr ''Completed''),
                     (''progress'', JNum 100)]) ''status'' = JStr ''Completed''
   \<and> refetchInterval (Some [(''job_id'', JStr ''j1''), (''status'', JStr ''Completed''),
                            (''progress'', JNum 100)]) = None"
proof -
  have a: "is_JobStatus documented_status"
    by (simp add: is_JobStatus_def JobStatus_def documented_status_def has_type_def
        is_SlideProgress_def SlideProgress_def JobState_def SlideState_def)
  have h: "opt_prop (Some [(''job_id'', JStr ''j1''), (''status'', JStr ''Completed''),
                   (''progress'', JNum 100)]) ''status'' = JStr ''Completed''"
    by (simp add: opt_prop_def get_prop_def)
  note t = polling_stops_on_completed_or_failed
    [of "Some [(''job_id'', JStr ''j1''), (''status'', JStr ''Completed''),
               (''progress'', JNum 100)]" "Some push_at_T1" documented_status]
  from t [THEN conjunct1] h
  have n: "refetchInterval (Some [(''job_id'', JStr ''j1''), (''status'', JStr ''Completed''),
                            (''progress'', JNum 100)]) = None"
    by simp
  have p: "pollingInterval (Some documented_status) (Some push_at_T1) = Some 2000"
    by (rule mp [OF t [THEN conjunct2, THEN conjunct2, THEN conjunct2, THEN conjunct2,
          THEN conjunct2] a])
  show ?thesis by (intro conjI) (rule a, rule p, rule h, rule n)
qed

end
